theory Spec2Isabelle
  imports Main "HOL-Library.Word"
begin

unbundle bit_operations_syntax

section \<open>JavaScript values\<close>

text \<open>
  The marketplace works on loosely typed JSON: catalog documents fetched from peers,
  ledger responses, broadcast messages. A value is what \<^verbatim>\<open>JSON.parse\<close> can return, plus
  \<^verbatim>\<open>undefined\<close> (the result of reading a property that is not there). Numbers are
  restricted to integers; strings are byte strings. An object is the list of its own
  properties in the order \<^verbatim>\<open>Object.entries\<close> enumerates them, with distinct keys.
\<close>

datatype jsval =
    JUndefined
  | JNull
  | JBool bool
  | JNum int
  | JStr string
  | JArr "jsval list"
  | JObj "(string \<times> jsval) list"

text \<open>Exceptions are values: the constructor is the error class, the string its message.\<close>

datatype js_error =
    Error string
  | TypeError string
  | SyntaxError string
  | TimeoutError string


text \<open>Truthiness, as \<^verbatim>\<open>if (v)\<close>, \<^verbatim>\<open>v || w\<close> and \<^verbatim>\<open>v && w\<close> test it.\<close>

fun truthy :: "jsval \<Rightarrow> bool" where
  "truthy JUndefined = False"
| "truthy JNull = False"
| "truthy (JBool b) = b"
| "truthy (JNum n) = (n \<noteq> 0)"
| "truthy (JStr s) = (s \<noteq> [])"
| "truthy (JArr xs) = True"
| "truthy (JObj kvs) = True"

definition js_or :: "jsval \<Rightarrow> jsval \<Rightarrow> jsval" where
  "js_or a b = (if truthy a then a else b)"

fun nullish :: "jsval \<Rightarrow> bool" where
  "nullish JUndefined = True"
| "nullish JNull = True"
| "nullish v = False"

text \<open>
  Reading a data property \<^verbatim>\<open>v.k\<close>. On \<^verbatim>\<open>null\<close> and \<^verbatim>\<open>undefined\<close> the read throws a
  TypeError: every function below tests \<open>nullish\<close> before its first read and makes
  the throw a branch of its own. \<open>getf\<close> is the read once the receiver is known not to
  be nullish. None of the property names the program reads is a built-in property of a
  string, number, boolean or array, so those receivers give \<^verbatim>\<open>undefined\<close>.
\<close>

fun getf :: "jsval \<Rightarrow> string \<Rightarrow> jsval" where
  "getf (JObj kvs) k = (case map_of kvs k of Some v \<Rightarrow> v | None \<Rightarrow> JUndefined)"
| "getf v k = JUndefined"

subsection \<open>Conversion to string\<close>

fun dec_of_nat :: "nat \<Rightarrow> string" where
  "dec_of_nat n =
     (if n < 10 then [''0123456789'' ! n]
      else dec_of_nat (n div 10) @ [''0123456789'' ! (n mod 10)])"

definition dec_of_int :: "int \<Rightarrow> string" where
  "dec_of_int i = (if i < 0 then CHR ''-'' # dec_of_nat (nat (- i)) else dec_of_nat (nat i))"

fun join_comma :: "string list \<Rightarrow> string" where
  "join_comma [] = []"
| "join_comma [s] = s"
| "join_comma (s # t # ss) = s @ '','' @ join_comma (t # ss)"

text \<open>
  \<^verbatim>\<open>String(v)\<close>, which is what a template literal and \<^verbatim>\<open>+\<close> with a string apply. An
  array joins its elements with commas, a nullish element giving the empty string.
\<close>

fun toStr :: "jsval \<Rightarrow> string" where
  "toStr JUndefined = ''undefined''"
| "toStr JNull = ''null''"
| "toStr (JBool b) = (if b then ''true'' else ''false'')"
| "toStr (JNum n) = dec_of_int n"
| "toStr (JStr s) = s"
| "toStr (JArr xs) = join_comma (map (\<lambda>x. if nullish x then [] else toStr x) xs)"
| "toStr (JObj kvs) = ''[object Object]''"

section \<open>Store aggregator: normalizing a catalog document\<close>

text \<open>A user profile, as \<^verbatim>\<open>fetchAllStores\<close> and \<^verbatim>\<open>parseStoreData\<close> read it.\<close>

record profile =
  store_url :: "string option"
  username :: jsval
  address :: jsval
  maxima_address :: jsval
  verified :: jsval
  featured_dapp_uid :: jsval

text \<open>The object literal \<^verbatim>\<open>parseStoreData\<close> builds for one dapp.\<close>

record dapp =
  uid :: string
  name :: jsval
  description :: jsval
  version :: jsval
  category :: jsval
  dapp_file :: string
  icon :: "string option"
  developer :: jsval
  developer_address :: jsval
  dapp_maxima_address :: jsval
  dapp_store_url :: string
  store_name :: string
  downloads :: jsval
  timestamp :: int
  dapp_verified :: jsval
  featured :: bool

text \<open>
  \<^verbatim>\<open>generateUid\<close>: a 32-bit rolling hash of \<^verbatim>\<open>`${dappName}_${address}_${Date.now()}`\<close>.
  Each round computes \<^verbatim>\<open>((hash << 5) - hash) + char\<close> and truncates it to a signed
  32-bit integer with \<^verbatim>\<open>hash & hash\<close>; all intermediate values are integers below
  \<open>2^53\<close>, so the round is the same arithmetic on a 32-bit word. The result is
  \<^verbatim>\<open>'0x'\<close> followed by the upper-case hexadecimal digits of the absolute value.
\<close>

definition hash_step :: "32 word \<Rightarrow> char \<Rightarrow> 32 word" where
  "hash_step hash c = (push_bit 5 hash - hash) + of_char c"

fun hex_of_nat :: "nat \<Rightarrow> string" where
  "hex_of_nat n =
     (if n < 16 then [''0123456789ABCDEF'' ! n]
      else hex_of_nat (n div 16) @ [''0123456789ABCDEF'' ! (n mod 16)])"

definition hash_loop :: "string \<Rightarrow> 32 word" where
  "hash_loop combined = foldl hash_step 0 combined"

definition generateUid :: "string \<Rightarrow> jsval \<Rightarrow> int \<Rightarrow> string" where
  "generateUid dappName addr now =
     (let combined = dappName @ ''_'' @ toStr addr @ ''_'' @ dec_of_int now;
          hash = hash_loop combined
      in ''0x'' @ hex_of_nat (nat \<bar>sint hash\<bar>))"

text \<open>
  \<^verbatim>\<open>storeUrl.replace(/\/[^\/]*$/, '')\<close>: the match starts at the last slash and runs to
  the end of the string; a URL without a slash is left as it is.
\<close>

definition baseUrl_of :: "string \<Rightarrow> string" where
  "baseUrl_of storeUrl =
     (if CHR ''/'' \<in> set storeUrl
      then rev (tl (dropWhile (\<lambda>c. c \<noteq> CHR ''/'') (rev storeUrl)))
      else storeUrl)"

text \<open>
  \<^verbatim>\<open>Object.entries\<close>: an object gives its properties, an array and a string give
  their elements under the decimal index, a number and a boolean give nothing, and
  \<^verbatim>\<open>null\<close> throws.
\<close>

fun indexed :: "nat \<Rightarrow> 'a list \<Rightarrow> (string \<times> 'a) list" where
  "indexed i [] = []"
| "indexed i (x # xs) = (dec_of_nat i, x) # indexed (Suc i) xs"

fun object_entries :: "jsval \<Rightarrow> js_error + (string \<times> jsval) list" where
  "object_entries (JObj kvs) = Inr kvs"
| "object_entries (JArr xs) = Inr (indexed 0 xs)"
| "object_entries (JStr s) = Inr (indexed 0 (map (\<lambda>c. JStr [c]) s))"
| "object_entries (JNum n) = Inr []"
| "object_entries (JBool b) = Inr []"
| "object_entries v = Inl (TypeError ''Cannot convert undefined or null to object'')"

definition reserved_key :: "string \<Rightarrow> bool" where
  "reserved_key key \<longleftrightarrow>
     key = ''name'' \<or> key = ''description'' \<or> key = ''icon'' \<or> key = ''version''"

text \<open>
  The body of the loop's \<^verbatim>\<open>try\<close> for a key that is not reserved. \<^verbatim>\<open>generateUid\<close> runs
  first and reads the clock (\<open>now_uid\<close>); the first read of a property of
  \<^verbatim>\<open>dappData\<close> throws when it is nullish; nothing after it can throw; the clock is
  read again for the timestamp (\<open>now_ts\<close>).
\<close>

definition build_dapp ::
  "string \<Rightarrow> profile \<Rightarrow> string \<Rightarrow> jsval \<Rightarrow> int \<Rightarrow> int \<Rightarrow> js_error + dapp" where
  "build_dapp storeUrl prof key dappData now_uid now_ts =
     (let baseUrl = baseUrl_of storeUrl;
          the_uid = generateUid key (address prof) now_uid
      in if nullish dappData
         then Inl (TypeError ''Cannot read properties of null (reading name)'')
         else Inr \<lparr>
           uid = the_uid,
           name = js_or (getf dappData ''name'') (JStr key),
           description = js_or (getf dappData ''description'') (JStr ''No description provided''),
           version = js_or (getf dappData ''version'') (JStr ''1.0.0''),
           category = js_or (getf dappData ''category'') (JStr ''Utility''),
           dapp_file = baseUrl @ ''/'' @ toStr (js_or (getf dappData ''miniDapp'') (getf dappData ''file'')),
           icon = (if truthy (getf dappData ''icon'')
                   then Some (baseUrl @ ''/'' @ toStr (getf dappData ''icon''))
                   else None),
           developer = username prof,
           developer_address = address prof,
           dapp_maxima_address = js_or (maxima_address prof) JNull,
           dapp_store_url = storeUrl,
           store_name = toStr (username prof) @ [CHR 0x27] @ ''s Store'',
           downloads = js_or (getf dappData ''downloads'') (JNum 0),
           timestamp = now_ts,
           dapp_verified = js_or (verified prof) (JBool False),
           featured = (featured_dapp_uid prof = JStr key)
         \<rparr>)"

text \<open>
  The loop of \<^verbatim>\<open>parseStoreData\<close>. \<open>clock\<close> gives the successive readings of
  \<^verbatim>\<open>Date.now()\<close> and \<open>t\<close> counts the readings made so far: none for a reserved key,
  one for an entry that is skipped by the \<^verbatim>\<open>catch\<close>, two for an entry that is pushed.
\<close>

fun parse_loop ::
  "string \<Rightarrow> profile \<Rightarrow> (nat \<Rightarrow> int) \<Rightarrow> nat \<Rightarrow> (string \<times> jsval) list \<Rightarrow> dapp list" where
  "parse_loop storeUrl prof clock t [] = []"
| "parse_loop storeUrl prof clock t ((key, dappData) # rest) =
     (if reserved_key key then parse_loop storeUrl prof clock t rest
      else case build_dapp storeUrl prof key dappData (clock t) (clock (Suc t)) of
             Inl e \<Rightarrow> parse_loop storeUrl prof clock (Suc t) rest
           | Inr d \<Rightarrow> d # parse_loop storeUrl prof clock (Suc (Suc t)) rest)"

definition parseStoreData ::
  "jsval \<Rightarrow> string \<Rightarrow> profile \<Rightarrow> (nat \<Rightarrow> int) \<Rightarrow> js_error + dapp list" where
  "parseStoreData storeData storeUrl prof clock =
     (case object_entries storeData of
        Inl e \<Rightarrow> Inl e
      | Inr entries \<Rightarrow> Inr (parse_loop storeUrl prof clock 0 entries))"

text \<open>
  An entry of the document is kept when its key is not reserved and its value is not
  nullish: these are the entries for which the loop pushes a dapp.
\<close>

definition kept :: "string \<times> jsval \<Rightarrow> bool" where
  "kept e \<longleftrightarrow> \<not> reserved_key (fst e) \<and> \<not> nullish (snd e)"

text \<open>The defaults of the display metadata: \<^verbatim>\<open>dappData.name || key\<close> and its siblings.\<close>

definition defaults_substituted :: "string \<times> jsval \<Rightarrow> dapp \<Rightarrow> bool" where
  "defaults_substituted e d \<longleftrightarrow>
     name d = (if truthy (getf (snd e) ''name'') then getf (snd e) ''name'' else JStr (fst e)) \<and>
     version d = (if truthy (getf (snd e) ''version'') then getf (snd e) ''version'' else JStr ''1.0.0'') \<and>
     category d = (if truthy (getf (snd e) ''category'') then getf (snd e) ''category'' else JStr ''Utility'')"

text \<open>The two fields of a dapp that come from the clock, blanked.\<close>

definition erase_clock :: "dapp \<Rightarrow> dapp" where
  "erase_clock d = d\<lparr>uid := [], timestamp := 0\<rparr>"



definition fixed_clock :: "int \<Rightarrow> nat \<Rightarrow> int" where
  "fixed_clock now n = now"

section \<open>Store aggregator: fetching one store\<close>

text \<open>
  The network, as \<^verbatim>\<open>fetch\<close> with an abort signal sees it. A server either never answers,
  or fails after some milliseconds, or sends the response headers after \<open>headers_after\<close>
  milliseconds and has delivered the body after \<open>body_after\<close> milliseconds (both counted
  from the request); \<open>body\<close> is what \<^verbatim>\<open>response.json()\<close> makes of the body, a SyntaxError
  or the parsed document.
\<close>

record server_reply =
  headers_after :: nat
  status :: int
  statusText :: string
  body_after :: nat
  body :: "js_error + jsval"

datatype net_result =
    NoAnswer
  | NetworkError nat js_error
  | Reply server_reply

text \<open>The request \<^verbatim>\<open>fetchStore\<close> makes.\<close>

record fetch_request =
  req_url :: string
  req_method :: string
  req_accept :: string
  req_timeout :: nat

text \<open>
  What the caller of \<^verbatim>\<open>fetch\<close> observes: the promise rejects, or it resolves to a response
  with a status, a status text and the settled value of \<^verbatim>\<open>response.json()\<close>.
  \<^verbatim>\<open>AbortSignal.timeout(t)\<close> rejects whatever has not finished after \<open>t\<close> milliseconds
  with a TimeoutError.
\<close>

datatype fetch_outcome =
    FetchRejected js_error
  | FetchResponse int string "js_error + jsval"

definition timeout_error :: js_error where
  "timeout_error = TimeoutError ''The operation timed out.''"

fun js_fetch :: "(string \<Rightarrow> net_result) \<Rightarrow> fetch_request \<Rightarrow> fetch_outcome" where
  "js_fetch net req =
     (case net (req_url req) of
        NoAnswer \<Rightarrow> FetchRejected timeout_error
      | NetworkError ms e \<Rightarrow>
          (if req_timeout req < ms then FetchRejected timeout_error else FetchRejected e)
      | Reply r \<Rightarrow>
          (if req_timeout req < headers_after r then FetchRejected timeout_error
           else FetchResponse (status r) (statusText r)
                  (if req_timeout req < body_after r then Inl timeout_error else body r)))"

text \<open>The two maps of the aggregator and its cache duration, five minutes in milliseconds.\<close>

record cache =
  cachedStores :: "string \<rightharpoonup> dapp list"
  lastFetchTime :: "string \<rightharpoonup> int"

definition cacheDuration :: int where
  "cacheDuration = 5 * 60 * 1000"

text \<open>
  The cache check at the top of \<^verbatim>\<open>fetchStore\<close>: \<^verbatim>\<open>lastFetch && (now - lastFetch) <
  cacheDuration\<close>, then \<^verbatim>\<open>if (cached)\<close>. A recorded time of 0 is falsy.
\<close>

definition fresh_cached :: "cache \<Rightarrow> int \<Rightarrow> string \<Rightarrow> dapp list option" where
  "fresh_cached c now storeUrl =
     (case lastFetchTime c storeUrl of
        None \<Rightarrow> None
      | Some lastFetch \<Rightarrow>
          (if lastFetch \<noteq> 0 \<and> now - lastFetch < cacheDuration
           then cachedStores c storeUrl else None))"

definition store_request :: "string \<Rightarrow> fetch_request" where
  "store_request storeUrl =
     \<lparr>req_url = storeUrl, req_method = ''GET'', req_accept = ''application/json'',
      req_timeout = 10000\<rparr>"

text \<open>\<^verbatim>\<open>response.ok\<close>: the status is in the range 200 to 299.\<close>

definition response_ok :: "int \<Rightarrow> bool" where
  "response_ok st \<longleftrightarrow> 200 \<le> st \<and> st \<le> 299"

text \<open>
  The \<^verbatim>\<open>try\<close> block of \<^verbatim>\<open>fetchStore\<close> from the settled fetch on: the value is the parsed
  dapps, or the exception that sends control to the \<^verbatim>\<open>catch\<close>.
\<close>

definition fetch_attempt ::
  "fetch_outcome \<Rightarrow> string \<Rightarrow> profile \<Rightarrow> (nat \<Rightarrow> int) \<Rightarrow> js_error + dapp list" where
  "fetch_attempt outcome storeUrl prof clock =
     (case outcome of
        FetchRejected e \<Rightarrow> Inl e
      | FetchResponse st txt json \<Rightarrow>
          (if \<not> response_ok st
           then Inl (Error (''HTTP '' @ dec_of_int st @ '': '' @ txt))
           else case json of
                  Inl e \<Rightarrow> Inl e
                | Inr storeData \<Rightarrow> parseStoreData storeData storeUrl prof clock))"

text \<open>
  The end of \<^verbatim>\<open>fetchStore\<close>, which runs without interruption once the attempt has
  settled: on success both maps are updated and the dapps returned; in the \<^verbatim>\<open>catch\<close> a
  cached record, of any age, is returned and otherwise the error is rethrown.
\<close>

definition settle ::
  "cache \<Rightarrow> int \<Rightarrow> string \<Rightarrow> js_error + dapp list \<Rightarrow> (js_error + dapp list) \<times> cache" where
  "settle c now storeUrl attempt =
     (case attempt of
        Inr dapps \<Rightarrow>
          (Inr dapps,
           c\<lparr>cachedStores := (cachedStores c)(storeUrl \<mapsto> dapps),
             lastFetchTime := (lastFetchTime c)(storeUrl \<mapsto> now)\<rparr>)
      | Inl e \<Rightarrow>
          (case cachedStores c storeUrl of
             Some cached \<Rightarrow> (Inr cached, c)
           | None \<Rightarrow> (Inl e, c)))"

text \<open>
  The environment of one call of \<^verbatim>\<open>fetchStore\<close>: the reading of \<^verbatim>\<open>Date.now()\<close> at its
  start, the network, and the clock readings \<^verbatim>\<open>parseStoreData\<close> will make.
\<close>

record call_env =
  env_now :: int
  env_net :: "string \<Rightarrow> net_result"
  env_clock :: "nat \<Rightarrow> int"

text \<open>
  One call of \<^verbatim>\<open>fetchStore\<close> run from start to end: the settled promise, the cache
  afterwards, and the requests sent.
\<close>

definition fetchStore ::
  "cache \<Rightarrow> call_env \<Rightarrow> string \<Rightarrow> profile \<Rightarrow>
     (js_error + dapp list) \<times> cache \<times> fetch_request list" where
  "fetchStore c env storeUrl prof =
     (case fresh_cached c (env_now env) storeUrl of
        Some cached \<Rightarrow> (Inr cached, c, [])
      | None \<Rightarrow>
          (let outcome = js_fetch (env_net env) (store_request storeUrl);
               (result, c') = settle c (env_now env) storeUrl
                                (fetch_attempt outcome storeUrl prof (env_clock env))
           in (result, c', [store_request storeUrl])))"

text \<open>The attempt of one call of \<^verbatim>\<open>fetchStore\<close>: its request, answered by its network.\<close>

definition store_attempt :: "call_env \<Rightarrow> string \<Rightarrow> profile \<Rightarrow> js_error + dapp list" where
  "store_attempt env storeUrl prof =
     fetch_attempt (js_fetch (env_net env) (store_request storeUrl)) storeUrl prof (env_clock env)"

section \<open>Store aggregator: fetching all stores\<close>

text \<open>
  \<^verbatim>\<open>p.store_url && p.store_url.trim()\<close>: the profile has a store URL that is not empty
  after trimming white space.
\<close>

definition js_whitespace :: "char \<Rightarrow> bool" where
  "js_whitespace ch \<longleftrightarrow> (of_char ch :: nat) \<in> {9, 10, 11, 12, 13, 32, 160}"

definition js_trim :: "string \<Rightarrow> string" where
  "js_trim s = rev (dropWhile js_whitespace (rev (dropWhile js_whitespace s)))"

definition has_store :: "profile \<Rightarrow> bool" where
  "has_store p = (case store_url p of None \<Rightarrow> False | Some u \<Rightarrow> u \<noteq> [] \<and> js_trim u \<noteq> [])"

definition the_url :: "profile \<Rightarrow> string" where
  "the_url p = (case store_url p of None \<Rightarrow> [] | Some u \<Rightarrow> u)"

text \<open>
  A source is a profile together with the environment its call of \<^verbatim>\<open>fetchStore\<close> runs
  in. \<open>source_attempt\<close> is what the \<^verbatim>\<open>try\<close> block of that call settles to; it does not
  depend on the cache.
\<close>

type_synonym source = "profile \<times> call_env"

definition source_attempt :: "source \<Rightarrow> js_error + dapp list" where
  "source_attempt src =
     fetch_attempt (js_fetch (env_net (snd src)) (store_request (the_url (fst src))))
       (the_url (fst src)) (fst src) (env_clock (snd src))"

text \<open>
  \<^verbatim>\<open>profilesWithStores.map(profile => this.fetchStore(...))\<close> starts every call in turn, and
  each runs up to its first \<^verbatim>\<open>await\<close>: a call that finds a fresh cache record is settled
  at once, any other has sent its request and is pending. All of them see the cache as
  it was before the first call.
\<close>

definition started :: "cache \<Rightarrow> source list \<Rightarrow> (js_error + dapp list) option list" where
  "started c srcs =
     map (\<lambda>src. map_option Inr (fresh_cached c (env_now (snd src)) (the_url (fst src)))) srcs"

text \<open>
  The pending calls finish in an order that the network decides: the schedule, a list of
  positions. Finishing call \<open>i\<close> runs the end of \<^verbatim>\<open>fetchStore\<close> on the cache as it is at
  that moment. A position that is out of range or already settled changes nothing.
\<close>

definition complete ::
  "source list \<Rightarrow> nat \<Rightarrow> cache \<times> (js_error + dapp list) option list \<Rightarrow>
     cache \<times> (js_error + dapp list) option list" where
  "complete srcs i s =
     (if i < length srcs \<and> i < length (snd s) \<and> snd s ! i = None
      then (snd (settle (fst s) (env_now (snd (srcs ! i))) (the_url (fst (srcs ! i)))
                   (source_attempt (srcs ! i))),
            (snd s)[i := Some (fst (settle (fst s) (env_now (snd (srcs ! i)))
                                      (the_url (fst (srcs ! i))) (source_attempt (srcs ! i))))])
      else s)"

fun completions ::
  "source list \<Rightarrow> nat list \<Rightarrow> cache \<times> (js_error + dapp list) option list \<Rightarrow>
     cache \<times> (js_error + dapp list) option list" where
  "completions srcs [] s = s"
| "completions srcs (i # sched) s = completions srcs sched (complete srcs i s)"

text \<open>
  \<^verbatim>\<open>Promise.allSettled\<close> resolves once every call has settled, with the results in the
  order of the calls; it never rejects. While a call is pending it does not resolve:
  the value is \<open>None\<close>.
\<close>

definition run_pipelines ::
  "cache \<Rightarrow> source list \<Rightarrow> nat list \<Rightarrow> ((js_error + dapp list) list \<times> cache) option" where
  "run_pipelines c srcs sched =
     (case those (snd (completions srcs sched (c, started c srcs))) of
        None \<Rightarrow> None
      | Some storeResults \<Rightarrow> Some (storeResults, fst (completions srcs sched (c, started c srcs))))"

text \<open>The \<^verbatim>\<open>forEach\<close> over the settled results and its three local variables.\<close>

record summary =
  allDapps :: "dapp list"
  successCount :: nat
  failCount :: nat

fun process_results :: "(js_error + dapp list) list \<Rightarrow> summary \<Rightarrow> summary" where
  "process_results [] s = s"
| "process_results (Inr dapps # rest) s =
     process_results rest (s\<lparr>allDapps := allDapps s @ dapps, successCount := successCount s + 1\<rparr>)"
| "process_results (Inl e # rest) s =
     process_results rest (s\<lparr>failCount := failCount s + 1\<rparr>)"

definition summary0 :: summary where
  "summary0 = \<lparr>allDapps = [], successCount = 0, failCount = 0\<rparr>"

text \<open>
  \<^verbatim>\<open>fetchAllStores\<close> returns the array \<^verbatim>\<open>allDapps\<close> and nothing else; the two counts are
  written to the console. The model returns the cache afterwards as well.
\<close>

definition fetchAllStores ::
  "cache \<Rightarrow> source list \<Rightarrow> nat list \<Rightarrow> (dapp list \<times> cache) option" where
  "fetchAllStores c profiles sched =
     (let profilesWithStores = filter (\<lambda>src. has_store (fst src)) profiles
      in if length profilesWithStores = 0 then Some ([], c)
         else case run_pipelines c profilesWithStores sched of
                None \<Rightarrow> None
              | Some (storeResults, c') \<Rightarrow>
                  Some (allDapps (process_results storeResults summary0), c'))"


definition entries_of :: "js_error + dapp list \<Rightarrow> dapp list" where
  "entries_of r = (case r of Inl e \<Rightarrow> [] | Inr dapps \<Rightarrow> dapps)"

definition pending :: "cache \<Rightarrow> source \<Rightarrow> bool" where
  "pending c src \<longleftrightarrow> fresh_cached c (env_now (snd src)) (the_url (fst src)) = None"

text \<open>A schedule is complete when every pending call finishes in it.\<close>

definition complete_schedule :: "cache \<Rightarrow> source list \<Rightarrow> nat list \<Rightarrow> bool" where
  "complete_schedule c srcs sched \<longleftrightarrow>
     list_all (\<lambda>i. pending c (srcs ! i) \<longrightarrow> i \<in> set sched) [0..<length srcs]"





text \<open>
  Invariant of the completions for a URL \<open>u\<close> with the cached record \<open>old\<close>, when no
  attempt on \<open>u\<close> succeeds: the record and its time stay, and every call on \<open>u\<close> that has
  settled has settled to \<open>old\<close>.
\<close>

definition inv_stale ::
  "cache \<Rightarrow> source list \<Rightarrow> string \<Rightarrow> dapp list \<Rightarrow>
     cache \<times> (js_error + dapp list) option list \<Rightarrow> bool" where
  "inv_stale c0 srcs u old s \<longleftrightarrow>
     length (snd s) = length srcs \<and>
     cachedStores (fst s) u = Some old \<and>
     lastFetchTime (fst s) u = lastFetchTime c0 u \<and>
     (\<forall>i<length srcs. \<forall>r. the_url (fst (srcs ! i)) = u \<longrightarrow> snd s ! i = Some r \<longrightarrow> r = Inr old)"

section \<open>Example data\<close>

text \<open>
  Two publishers for the closed examples below. Alice's store answers with the catalog
  \<^verbatim>\<open>{"a": {}}\<close>; Bob's store answers with status 500.
\<close>

definition answering :: "net_result \<Rightarrow> string \<Rightarrow> net_result" where
  "answering r url = r"

abbreviation example_alice :: profile where
  "example_alice \<equiv>
     \<lparr>store_url = Some ''http://host/store/dapps.json'', username = JStr ''alice'',
      address = JStr ''b'', maxima_address = JUndefined, verified = JUndefined,
      featured_dapp_uid = JUndefined\<rparr>"


abbreviation example_alice_env :: call_env where
  "example_alice_env \<equiv>
     \<lparr>env_now = 400000,
      env_net = answering (Reply \<lparr>headers_after = 10, status = 200, statusText = ''OK'',
                                   body_after = 20, body = Inr (JObj [(''a'', JObj [])])\<rparr>),
      env_clock = fixed_clock 0\<rparr>"

abbreviation example_bob :: profile where
  "example_bob \<equiv>
     \<lparr>store_url = Some ''http://bob/dapps.json'', username = JStr ''bob'',
      address = JStr ''c'', maxima_address = JUndefined, verified = JUndefined,
      featured_dapp_uid = JUndefined\<rparr>"

abbreviation example_bob_dapp :: dapp where
  "example_bob_dapp \<equiv>
     \<lparr>uid = ''0x1'', name = JStr ''old'',
      description = JStr ''No description provided'', version = JStr ''1.0.0'',
      category = JStr ''Utility'', dapp_file = ''http://bob/old.mds.zip'',
      icon = None, developer = JStr ''bob'', developer_address = JStr ''c'',
      dapp_maxima_address = JNull, dapp_store_url = ''http://bob/dapps.json'',
      store_name = ''bob'' @ [CHR 0x27] @ ''s Store'', downloads = JNum 0,
      timestamp = 1000, dapp_verified = JBool False, featured = False\<rparr>"

abbreviation example_bob_env :: call_env where
  "example_bob_env \<equiv>
     \<lparr>env_now = 400000,
      env_net = answering (Reply \<lparr>headers_after = 10, status = 500,
                                   statusText = ''Internal Server Error'',
                                   body_after = 20, body = Inl (SyntaxError ''Unexpected token'')\<rparr>),
      env_clock = fixed_clock 0\<rparr>"

text \<open>A store that is slower than the timeout allows.\<close>

abbreviation example_slow_env :: call_env where
  "example_slow_env \<equiv>
     \<lparr>env_now = 400000,
      env_net = answering (Reply \<lparr>headers_after = 10001, status = 200, statusText = ''OK'',
                                   body_after = 10002, body = Inr (JObj [])\<rparr>),
      env_clock = fixed_clock 0\<rparr>"

abbreviation example_empty_cache :: cache where
  "example_empty_cache \<equiv> \<lparr>cachedStores = map_of [], lastFetchTime = map_of []\<rparr>"

abbreviation example_bob_cache :: cache where
  "example_bob_cache \<equiv>
     \<lparr>cachedStores = map_of [(''http://bob/dapps.json'', [example_bob_dapp])],
      lastFetchTime = map_of [(''http://bob/dapps.json'', 1000)]\<rparr>"

section \<open>Ledger commands and dapp registration\<close>

text \<open>
  The node is outside the program. Given a command string it calls the callback with a
  response object, or never calls it, or the call itself throws; it has a state of its
  own, which a command may change.
\<close>

datatype node_reaction =
    Calls jsval
  | Silent
  | Throws string

type_synonym 'l node = "'l \<Rightarrow> string \<Rightarrow> node_reaction \<times> 'l"

text \<open>Which of the globals \<^verbatim>\<open>MDS\<close> and \<^verbatim>\<open>Minima\<close> exists and has a \<^verbatim>\<open>cmd\<close> function.\<close>

datatype backend = HasMDS | HasMinima | NoBackend

record minima =
  isReady :: bool
  developmentMode :: bool
  api :: backend

text \<open>\<^verbatim>\<open>command.includes(s)\<close>.\<close>

fun js_includes :: "string \<Rightarrow> string \<Rightarrow> bool" where
  "js_includes [] sub = (sub = [])"
| "js_includes (c # cs) sub = (take (length sub) (c # cs) = sub \<or> js_includes cs sub)"

text \<open>\<^verbatim>\<open>_mockCommandResponse\<close>: the development mode answers every command itself.\<close>

definition mockCommandResponse :: "string \<Rightarrow> jsval" where
  "mockCommandResponse command =
     (if js_includes command ''getaddress'' then
        JObj [(''response'', JObj [
          (''script'', JStr ''RETURN SIGNEDBY(0x30819F300D06092A864886F70D010101050003818D00308189028181008BF0A5906D2D41EB1006BE29310BD51706AE957B38894EF2BDDE2392ED780F66BC0A14E2F2C7F4FB966EBE553E8F0A624BAE9A3C65ADFDB91D196E433B586DE2F019383B78E089FE76AF4C0CF46E1FC13DCA740251DD8F9736E2A9932D30A1B4715F9C27D4C13B0FFE167CABEAC4317C08C6471C476271766E97CB401C5E45A90203010001)''),
          (''address'', JStr ''MxG080EFPWA5187VNP2E3H63G70MZVRHWE9SYNSGMUCV77DN5699E1GY6N38575''),
          (''miniaddress'', JStr ''MxG080EFPWA5187VNP2E3H63G70MZVRHWE9SYNSGMUCV77DN5699E1GY6N38575''),
          (''simple'', JBool True),
          (''default'', JBool True),
          (''publickey'', JStr ''0x30819F300D06092A864886F70D010101050003818D00308189028181008BF0A5906D2D41EB1006BE29310BD51706AE957B38894EF2BDDE2392ED780F66BC0A14E2F2C7F4FB966EBE553E8F0A624BAE9A3C65ADFDB91D196E433B586DE2F019383B78E089FE76AF4C0CF46E1FC13DCA740251DD8F9736E2A9932D30A1B4715F9C27D4C13B0FFE167CABEAC4317C08C6471C476271766E97CB401C5E45A90203010001''),
          (''track'', JBool True)])]
      else if js_includes command ''balance'' then
        JObj [(''response'', JObj [(''balance'', JStr ''11585.69'')])]
      else JObj [(''response'', JObj [(''mock'', JBool True), (''command'', JStr command)])])"

text \<open>
  The callback of \<^verbatim>\<open>_mdsCommand\<close>: \<^verbatim>\<open>response.status\<close> decides between resolve and reject.
  The callback throws on a nullish response, outside the promise's executor, so the
  promise stays pending: the value is \<open>None\<close>.
\<close>

definition command_callback :: "string \<Rightarrow> jsval \<Rightarrow> (js_error + jsval) option" where
  "command_callback failed response =
     (if nullish response then None
      else if truthy (getf response ''status'') then Some (Inr response)
      else Some (Inl (Error (toStr (js_or (getf response ''error'') (JStr failed))))))"

definition run_command ::
  "string \<Rightarrow> 'l node \<Rightarrow> 'l \<Rightarrow> string \<Rightarrow> (js_error + jsval) option \<times> 'l" where
  "run_command failed node l command =
     (case node l command of
        (Calls response, l') \<Rightarrow> (command_callback failed response, l')
      | (Silent, l') \<Rightarrow> (None, l')
      | (Throws m, l') \<Rightarrow> (Some (Inl (Error (''API command execution failed: '' @ m))), l'))"

text \<open>
  \<^verbatim>\<open>_mdsCommand\<close>: the settled promise (\<open>None\<close> while it never settles) and the state of
  the node afterwards.
\<close>

definition mdsCommand ::
  "minima \<Rightarrow> 'l node \<Rightarrow> 'l \<Rightarrow> string \<Rightarrow> (js_error + jsval) option \<times> 'l" where
  "mdsCommand m node l command =
     (if \<not> isReady m then (Some (Inl (Error ''API not initialized'')), l)
      else if developmentMode m then (Some (Inr (mockCommandResponse command)), l)
      else case api m of
             HasMDS \<Rightarrow> run_command ''MDS command failed'' node l command
           | HasMinima \<Rightarrow> run_command ''Minima command failed'' node l command
           | NoBackend \<Rightarrow> (Some (Inl (Error ''No API available for command execution'')), l))"

text \<open>The argument of \<^verbatim>\<open>sendCustomTransaction\<close>; a field that is absent is \<^verbatim>\<open>undefined\<close>.\<close>

record transaction_data =
  amount :: jsval
  address_to :: jsval
  state :: jsval














subsection \<open>Example node\<close>



abbreviation example_minima :: minima where
  "example_minima \<equiv> \<lparr>isReady = True, developmentMode = False, api = HasMDS\<rparr>"

section \<open>Registry scan\<close>

text \<open>
  \<^verbatim>\<open>queryRegisteredDapps\<close>. \<^verbatim>\<open>JSON.parse\<close> belongs to the language: it is the parameter
  \<open>json_parse\<close>, with \<open>None\<close> for a SyntaxError. The object pushed for a registration:
\<close>

definition registry_entry :: "jsval \<Rightarrow> jsval \<Rightarrow> jsval" where
  "registry_entry dappData coin =
     JObj [(''uid'', getf dappData ''dapp_uid''),
           (''name'', getf dappData ''name''),
           (''version'', getf dappData ''version''),
           (''description'', getf dappData ''description''),
           (''category'', getf dappData ''category''),
           (''icon'', js_or (getf dappData ''icon'') JNull),
           (''ipfs_hash'', getf dappData ''ipfs_hash''),
           (''developer_address'', getf dappData ''developer_address''),
           (''timestamp'', getf dappData ''timestamp''),
           (''downloads'', JNum 0),
           (''tips'', JNum 0),
           (''txId'', js_or (getf coin ''coinid'') (getf coin ''txpowid''))]"

text \<open>
  \<^verbatim>\<open>coin.state.find(s => s.port === '0')\<close>: the first element whose port is the string
  \<^verbatim>\<open>'0'\<close>, or \<^verbatim>\<open>undefined\<close>; reading the port of a nullish element throws.
\<close>

fun find_port0 :: "jsval list \<Rightarrow> js_error + jsval" where
  "find_port0 [] = Inr JUndefined"
| "find_port0 (s # ss) =
     (if nullish s then Inl (TypeError ''Cannot read properties of null (reading port)'')
      else if getf s ''port'' = JStr ''0'' then Inr s
      else find_port0 ss)"

text \<open>
  The inner \<^verbatim>\<open>try\<close>: parse the data, and if it is tagged as a registration build the
  entry. A SyntaxError, and the TypeError of reading \<^verbatim>\<open>type\<close> of \<^verbatim>\<open>null\<close>, are caught and
  the record is skipped.
\<close>

definition decode_registration :: "(string \<Rightarrow> jsval option) \<Rightarrow> jsval \<Rightarrow> jsval \<Rightarrow> jsval option" where
  "decode_registration json_parse coin dappState =
     (case json_parse (toStr (getf dappState ''data'')) of
        None \<Rightarrow> None
      | Some dappData \<Rightarrow>
          (if nullish dappData then None
           else if getf dappData ''type'' = JStr ''minidev_dapp_registration''
           then Some (registry_entry dappData coin)
           else None))"

text \<open>
  The body of the loop for one coin, up to the limit check: an entry to push, or
  nothing, or an exception that leaves the loop for the outer \<^verbatim>\<open>catch\<close>.
\<close>

definition scan_coin :: "(string \<Rightarrow> jsval option) \<Rightarrow> jsval \<Rightarrow> js_error + jsval option" where
  "scan_coin json_parse coin =
     (if nullish coin then Inl (TypeError ''Cannot read properties of null (reading state)'')
      else case getf coin ''state'' of
             JArr st \<Rightarrow>
               (case find_port0 st of
                  Inl e \<Rightarrow> Inl e
                | Inr dappState \<Rightarrow>
                    (if truthy dappState \<and> truthy (getf dappState ''data'')
                     then Inr (decode_registration json_parse coin dappState)
                     else Inr None))
           | other \<Rightarrow> Inr None)"

fun scan_coins ::
  "(string \<Rightarrow> jsval option) \<Rightarrow> int \<Rightarrow> jsval list \<Rightarrow> jsval list \<Rightarrow> js_error + jsval list" where
  "scan_coins json_parse limit [] dapps = Inr dapps"
| "scan_coins json_parse limit (coin # coins) dapps =
     (case scan_coin json_parse coin of
        Inl e \<Rightarrow> Inl e
      | Inr found \<Rightarrow>
          (if limit \<le> int (length (dapps @ (case found of None \<Rightarrow> [] | Some d \<Rightarrow> [d])))
           then Inr (dapps @ (case found of None \<Rightarrow> [] | Some d \<Rightarrow> [d]))
           else scan_coins json_parse limit coins
                  (dapps @ (case found of None \<Rightarrow> [] | Some d \<Rightarrow> [d]))))"

text \<open>
  \<^verbatim>\<open>for (const coin of result.response.coins)\<close>, reached only for a truthy value: an array
  and a string can be iterated, any other value throws.
\<close>

fun js_iterate :: "jsval \<Rightarrow> js_error + jsval list" where
  "js_iterate (JArr xs) = Inr xs"
| "js_iterate (JStr s) = Inr (map (\<lambda>c. JStr [c]) s)"
| "js_iterate v = Inl (TypeError ''result.response.coins is not iterable'')"

text \<open>The \<^verbatim>\<open>try\<close> block after the command has resolved to \<open>result\<close>.\<close>

definition scan_result ::
  "(string \<Rightarrow> jsval option) \<Rightarrow> int \<Rightarrow> jsval \<Rightarrow> js_error + jsval list" where
  "scan_result json_parse limit result =
     (if nullish result then Inl (TypeError ''Cannot read properties of undefined (reading response)'')
      else if truthy (getf result ''response'') \<and> truthy (getf (getf result ''response'') ''coins'')
      then (case js_iterate (getf (getf result ''response'') ''coins'') of
              Inl e \<Rightarrow> Inl e
            | Inr coins \<Rightarrow> scan_coins json_parse limit coins [])
      else Inr [])"

text \<open>The outer \<^verbatim>\<open>catch\<close>: every exception becomes the empty array.\<close>

definition catch_empty :: "js_error + jsval list \<Rightarrow> js_error + jsval list" where
  "catch_empty r = (case r of Inl e \<Rightarrow> Inr [] | Inr dapps \<Rightarrow> Inr dapps)"

text \<open>
  \<^verbatim>\<open>queryRegisteredDapps(limit = 100)\<close>: the settled promise (\<open>None\<close> while the command
  never settles) and the node afterwards. \<open>ready\<close> and \<open>mapi\<close> are as in
  \<^verbatim>\<open>registerDapp\<close>.
\<close>

definition queryRegisteredDapps ::
  "(string \<Rightarrow> jsval option) \<Rightarrow> bool \<Rightarrow> minima option \<Rightarrow> 'l node \<Rightarrow> 'l \<Rightarrow> int option \<Rightarrow>
     (js_error + jsval list) option \<times> 'l" where
  "queryRegisteredDapps json_parse ready mapi node l limit_arg =
     (let limit = (case limit_arg of None \<Rightarrow> 100 | Some n \<Rightarrow> n)
      in if \<not> ready then (Some (catch_empty (Inl (Error ''Blockchain API not ready''))), l)
         else case mapi of
                None \<Rightarrow>
                  (Some (catch_empty (Inl (TypeError ''Cannot read properties of null (reading cmd)''))), l)
              | Some m \<Rightarrow>
                  (case mdsCommand m node l ''coins relevant:false'' of
                     (None, l') \<Rightarrow> (None, l')
                   | (Some (Inl e), l') \<Rightarrow> (Some (catch_empty (Inl e)), l')
                   | (Some (Inr result), l') \<Rightarrow>
                       (Some (catch_empty (scan_result json_parse limit result)), l')))"

text \<open>
  The claim's reading of a record, to compare the scan with: the record's metadata slot
  is the first state entry at port \<^verbatim>\<open>'0'\<close>; it counts when it has data that parses and
  is tagged as a dapp registration.
\<close>

definition tagged_registration :: "(string \<Rightarrow> jsval option) \<Rightarrow> jsval \<Rightarrow> jsval option" where
  "tagged_registration json_parse coin =
     (case getf coin ''state'' of
        JArr st \<Rightarrow>
          (case find (\<lambda>s. getf s ''port'' = JStr ''0'') st of
             None \<Rightarrow> None
           | Some slot \<Rightarrow>
               (if truthy (getf slot ''data'')
                then (case json_parse (toStr (getf slot ''data'')) of
                        None \<Rightarrow> None
                      | Some dappData \<Rightarrow>
                          (if getf dappData ''type'' = JStr ''minidev_dapp_registration''
                           then Some (registry_entry dappData coin) else None))
                else None))
      | other \<Rightarrow> None)"

text \<open>A record is well formed when it is an object and its state, if an array, has no null.\<close>

definition well_formed_coin :: "jsval \<Rightarrow> bool" where
  "well_formed_coin coin \<longleftrightarrow>
     \<not> nullish coin \<and>
     (case getf coin ''state'' of JArr st \<Rightarrow> list_all (\<lambda>s. \<not> nullish s) st | other \<Rightarrow> True)"

subsection \<open>Example ledger\<close>

text \<open>
  A ledger for the closed examples: three records, the second with metadata that is not
  JSON, and a stand-in for \<^verbatim>\<open>JSON.parse\<close> that knows the two registrations.
\<close>

abbreviation example_registration_one :: jsval where
  "example_registration_one \<equiv>
     JObj [(''type'', JStr ''minidev_dapp_registration''), (''name'', JStr ''One'')]"

abbreviation example_registration_two :: jsval where
  "example_registration_two \<equiv>
     JObj [(''type'', JStr ''minidev_dapp_registration''), (''name'', JStr ''Two'')]"

definition example_json_parse :: "string \<Rightarrow> jsval option" where
  \<open>example_json_parse s =
     (if s = ''{"type":"minidev_dapp_registration","name":"One"}'' then Some example_registration_one
      else if s = ''{"type":"minidev_dapp_registration","name":"Two"}'' then Some example_registration_two
      else None)\<close>

abbreviation example_coin_one :: jsval where
  \<open>example_coin_one \<equiv>
     JObj [(''coinid'', JStr ''0xC1''),
           (''state'', JArr [JObj [(''port'', JStr ''0''),
                                   (''data'', JStr ''{"type":"minidev_dapp_registration","name":"One"}'')]])]\<close>

abbreviation example_coin_bad :: jsval where
  "example_coin_bad \<equiv>
     JObj [(''coinid'', JStr ''0xC2''),
           (''state'', JArr [JObj [(''port'', JStr ''0''), (''data'', JStr ''not json'')]])]"

abbreviation example_coin_two :: jsval where
  \<open>example_coin_two \<equiv>
     JObj [(''coinid'', JStr ''0xC3''),
           (''state'', JArr [JObj [(''port'', JStr ''0''),
                                   (''data'', JStr ''{"type":"minidev_dapp_registration","name":"Two"}'')]])]\<close>

definition example_ledger :: "unit node" where
  "example_ledger l command =
     (Calls (JObj [(''status'', JBool True),
                   (''response'', JObj [(''coins'',
                      JArr [example_coin_one, example_coin_bad, example_coin_two])])]), l)"

section \<open>The view model of the application\<close>

text \<open>
  \<^verbatim>\<open>this.dapps\<close> is a list of objects from three origins (stores, registry, broadcasts),
  so its elements are plain values. \<^verbatim>\<open>a === b\<close> on values of which at least one comes
  from outside the list: primitives are compared by value, and two objects are never the
  same object.
\<close>

fun strict_eq :: "jsval \<Rightarrow> jsval \<Rightarrow> bool" where
  "strict_eq JUndefined JUndefined = True"
| "strict_eq JNull JNull = True"
| "strict_eq (JBool a) (JBool b) = (a = b)"
| "strict_eq (JNum a) (JNum b) = (a = b)"
| "strict_eq (JStr a) (JStr b) = (a = b)"
| "strict_eq a b = False"


text \<open>
  \<^verbatim>\<open>this.dapps.find(d => d.uid === dappUid)\<close>, as the position of the element found;
  reading \<^verbatim>\<open>uid\<close> of a nullish element throws.
\<close>

fun find_by_uid :: "jsval list \<Rightarrow> jsval \<Rightarrow> nat \<Rightarrow> js_error + nat option" where
  "find_by_uid [] dappUid i = Inr None"
| "find_by_uid (d # ds) dappUid i =
     (if nullish d then Inl (TypeError ''Cannot read properties of null (reading uid)'')
      else if strict_eq (getf d ''uid'') dappUid then Inr (Some i)
      else find_by_uid ds dappUid (Suc i))"




subsection \<open>Example listing\<close>



section \<open>Properties of the normalizer\<close>

lemma build_dapp_Inl: "nullish v \<Longrightarrow> \<exists>e. build_dapp u p k v a b = Inl e"
  by (simp add: build_dapp_def Let_def)

lemma build_dapp_Inr: "\<not> nullish v \<Longrightarrow> \<exists>d. build_dapp u p k v a b = Inr d"
  by (simp add: build_dapp_def Let_def)

lemma build_dapp_name:
  "build_dapp u p k v a b = Inr d \<Longrightarrow> name d = js_or (getf v ''name'') (JStr k)"
  unfolding build_dapp_def Let_def by (cases "nullish v") auto

lemma build_dapp_version:
  "build_dapp u p k v a b = Inr d \<Longrightarrow> version d = js_or (getf v ''version'') (JStr ''1.0.0'')"
  unfolding build_dapp_def Let_def by (cases "nullish v") auto

lemma build_dapp_category:
  "build_dapp u p k v a b = Inr d \<Longrightarrow> category d = js_or (getf v ''category'') (JStr ''Utility'')"
  unfolding build_dapp_def Let_def by (cases "nullish v") auto


lemma build_dapp_file:
  "build_dapp u p k v a b = Inr d \<Longrightarrow>
     dapp_file d = baseUrl_of u @ ''/'' @ toStr (js_or (getf v ''miniDapp'') (getf v ''file''))"
  unfolding build_dapp_def Let_def by (cases "nullish v") auto

lemma build_dapp_icon:
  "build_dapp u p k v a b = Inr d \<Longrightarrow>
     icon d = (if truthy (getf v ''icon'') then Some (baseUrl_of u @ ''/'' @ toStr (getf v ''icon'')) else None)"
  unfolding build_dapp_def Let_def by (cases "nullish v") auto

lemma build_dapp_defaults:
  "build_dapp u p k v a b = Inr d \<Longrightarrow> defaults_substituted (k, v) d"
  by (simp add: defaults_substituted_def build_dapp_name build_dapp_version build_dapp_category js_or_def)


lemma erase_clock_update [simp]:
  "erase_clock (d\<lparr>uid := x, timestamp := y\<rparr>) = erase_clock d"
  by (simp add: erase_clock_def)

lemma parse_loop_defaults:
  "list_all2 defaults_substituted (filter kept es) (parse_loop u p c t es)"
proof (induction es arbitrary: t)
  case Nil
  show ?case by simp
next
  case (Cons e es)
  obtain k v where e: "e = (k, v)" by (cases e)
  show ?case
  proof (cases "reserved_key k")
    case True
    then show ?thesis using Cons.IH [of t] by (simp add: e kept_def)
  next
    case False
    show ?thesis
    proof (cases "nullish v")
      case True
      then obtain x where "build_dapp u p k v (c t) (c (Suc t)) = Inl x"
        using build_dapp_Inl by blast
      then show ?thesis using Cons.IH [of "Suc t"] True False by (simp add: e kept_def)
    next
      case nn: False
      then obtain d where d: "build_dapp u p k v (c t) (c (Suc t)) = Inr d"
        using build_dapp_Inr by blast
      then show ?thesis
        using Cons.IH [of "Suc (Suc t)"] nn False build_dapp_defaults [OF d]
        by (simp add: e kept_def)
    qed
  qed
qed



lemma parse_loop_member:
  "(k, v) \<in> set es \<Longrightarrow> \<not> reserved_key k \<Longrightarrow> \<not> nullish v \<Longrightarrow>
   \<exists>d a b. d \<in> set (parse_loop u p c t es) \<and> build_dapp u p k v a b = Inr d"
proof (induction es arbitrary: t)
  case Nil
  then show ?case by simp
next
  case (Cons e es)
  obtain k' v' where e: "e = (k', v')" by (cases e)
  have sub: "set (parse_loop u p c t' es) \<subseteq> set (parse_loop u p c t (e # es))" if
    "t' = (if reserved_key k' then t else if nullish v' then Suc t else Suc (Suc t))" for t'
  proof (cases "reserved_key k'")
    case True
    then show ?thesis using that by (simp add: e)
  next
    case False
    show ?thesis
    proof (cases "nullish v'")
      case True
      obtain x where "build_dapp u p k' v' (c t) (c (Suc t)) = Inl x"
        using build_dapp_Inl [OF True] by blast
      then show ?thesis using that False True by (simp add: e)
    next
      case nn: False
      obtain d where "build_dapp u p k' v' (c t) (c (Suc t)) = Inr d"
        using build_dapp_Inr [OF nn] by blast
      then show ?thesis using that False nn by (auto simp: e)
    qed
  qed
  show ?case
  proof (cases "(k, v) = e")
    case True
    obtain d where d: "build_dapp u p k v (c t) (c (Suc t)) = Inr d"
      using build_dapp_Inr [OF Cons.prems(3)] by blast
    then have "d \<in> set (parse_loop u p c t (e # es))"
      using True Cons.prems(2) by (auto simp: e)
    then show ?thesis using d by blast
  next
    case False
    then have "(k, v) \<in> set es" using Cons.prems(1) by simp
    from Cons.IH [OF this Cons.prems(2,3)] sub show ?thesis by blast
  qed
qed










text \<open>
  Claim C8: for a catalog fetched from \<^verbatim>\<open>http://host/store/dapps.json\<close> that has, under a key
  that is not reserved, an entry declaring \<^verbatim>\<open>miniDapp: "game.mds.zip"\<close>, normalization
  succeeds and yields an entry whose package URL is exactly
  \<^verbatim>\<open>http://host/store/game.mds.zip\<close>; a declared icon is resolved against the same
  directory, and an entry without one has none.
\<close>
theorem parseStoreData_resolves_package_url:
  assumes "object_entries storeData = Inr entries"
      and "(key, dappData) \<in> set entries"
      and "\<not> reserved_key key"
      and "getf dappData ''miniDapp'' = JStr ''game.mds.zip''"
  shows "\<exists>dapps d. parseStoreData storeData ''http://host/store/dapps.json'' prof clock = Inr dapps \<and>
           d \<in> set dapps \<and>
           dapp_file d = ''http://host/store/game.mds.zip'' \<and>
           icon d = (if truthy (getf dappData ''icon'')
                     then Some (''http://host/store/'' @ toStr (getf dappData ''icon''))
                     else None)"
proof -
  have nn: "\<not> nullish dappData" using assms(4) by (cases dappData) auto
  from parse_loop_member [OF assms(2,3) nn, of "''http://host/store/dapps.json''" prof clock 0]
  obtain d a b where d: "d \<in> set (parse_loop ''http://host/store/dapps.json'' prof clock 0 entries)"
    and b: "build_dapp ''http://host/store/dapps.json'' prof key dappData a b = Inr d"
    by blast
  have base: "baseUrl_of ''http://host/store/dapps.json'' = ''http://host/store''"
    by (simp add: baseUrl_of_def)
  have f: "dapp_file d = ''http://host/store/game.mds.zip''"
    using build_dapp_file [OF b] by (simp add: base assms(4) js_or_def)
  have i: "icon d = (if truthy (getf dappData ''icon'')
                     then Some (''http://host/store/'' @ toStr (getf dappData ''icon''))
                     else None)"
    using build_dapp_icon [OF b] by (simp add: base)
  have "parseStoreData storeData ''http://host/store/dapps.json'' prof clock
      = Inr (parse_loop ''http://host/store/dapps.json'' prof clock 0 entries)"
    by (simp add: parseStoreData_def assms(1))
  with d f i show ?thesis by blast
qed

text \<open>
  Claim C9: normalizing a document yields, in order, exactly one entry for each key that is
  not reserved and whose value is not nullish (such a value is skipped by the
  \<^verbatim>\<open>catch\<close>); the reserved keys \<^verbatim>\<open>name\<close>, \<^verbatim>\<open>description\<close>, \<^verbatim>\<open>icon\<close> and \<^verbatim>\<open>version\<close> yield no
  entry. In each entry a missing (or falsy) name is the key, a missing version is
  \<^verbatim>\<open>1.0.0\<close> and a missing category is \<^verbatim>\<open>Utility\<close>; a declared truthy value is kept.
\<close>
theorem parseStoreData_defaults:
  assumes "object_entries storeData = Inr entries"
  shows "\<exists>dapps. parseStoreData storeData storeUrl prof clock = Inr dapps \<and>
           list_all2 defaults_substituted (filter kept entries) dapps"
  by (simp add: parseStoreData_def assms parse_loop_defaults)

text \<open>Witness for C8: a catalog with a reserved key and one dapp with package and icon.\<close>
theorem parseStoreData_resolves_package_url_witness:
  "object_entries (JObj [(''name'', JStr ''Alice Store''),
       (''game'', JObj [(''miniDapp'', JStr ''game.mds.zip''), (''icon'', JStr ''game.png'')])])
     = Inr [(''name'', JStr ''Alice Store''),
       (''game'', JObj [(''miniDapp'', JStr ''game.mds.zip''), (''icon'', JStr ''game.png'')])] \<and>
   \<not> reserved_key ''game'' \<and>
   getf (JObj [(''miniDapp'', JStr ''game.mds.zip''), (''icon'', JStr ''game.png'')]) ''miniDapp''
     = JStr ''game.mds.zip'' \<and>
   (\<exists>dapps d.
      parseStoreData (JObj [(''name'', JStr ''Alice Store''),
          (''game'', JObj [(''miniDapp'', JStr ''game.mds.zip''), (''icon'', JStr ''game.png'')])])
        ''http://host/store/dapps.json''
        \<lparr>store_url = Some ''http://host/store/dapps.json'', username = JStr ''alice'',
         address = JStr ''b'', maxima_address = JUndefined, verified = JUndefined,
         featured_dapp_uid = JUndefined\<rparr> (fixed_clock 0) = Inr dapps \<and>
      d \<in> set dapps \<and>
      dapp_file d = ''http://host/store/game.mds.zip'' \<and>
      icon d = Some ''http://host/store/game.png'')"
proof -
  have h1: "object_entries (JObj [(''name'', JStr ''Alice Store''),
       (''game'', JObj [(''miniDapp'', JStr ''game.mds.zip''), (''icon'', JStr ''game.png'')])])
     = Inr [(''name'', JStr ''Alice Store''),
       (''game'', JObj [(''miniDapp'', JStr ''game.mds.zip''), (''icon'', JStr ''game.png'')])]"
    by simp
  have h2: "(''game'', JObj [(''miniDapp'', JStr ''game.mds.zip''), (''icon'', JStr ''game.png'')])
     \<in> set [(''name'', JStr ''Alice Store''),
       (''game'', JObj [(''miniDapp'', JStr ''game.mds.zip''), (''icon'', JStr ''game.png'')])]"
    by simp
  have h3: "\<not> reserved_key ''game''" by (simp add: reserved_key_def)
  have h4: "getf (JObj [(''miniDapp'', JStr ''game.mds.zip''), (''icon'', JStr ''game.png'')]) ''miniDapp''
     = JStr ''game.mds.zip''" by simp
  from parseStoreData_resolves_package_url [OF h1 h2 h3 h4, where clock = "fixed_clock 0"
      and prof = "\<lparr>store_url = Some ''http://host/store/dapps.json'', username = JStr ''alice'',
         address = JStr ''b'', maxima_address = JUndefined, verified = JUndefined,
         featured_dapp_uid = JUndefined\<rparr>"] h1 h3 h4
  show ?thesis by simp
qed

text \<open>
  Witness for C9: a catalog with a reserved key, a dapp that declares only its package, and
  a null entry.
\<close>
theorem parseStoreData_defaults_witness:
  "object_entries (JObj [(''name'', JStr ''Alice Store''),
       (''game'', JObj [(''miniDapp'', JStr ''game.mds.zip'')]), (''broken'', JNull)])
     = Inr [(''name'', JStr ''Alice Store''),
       (''game'', JObj [(''miniDapp'', JStr ''game.mds.zip'')]), (''broken'', JNull)] \<and>
   (\<exists>d. parseStoreData (JObj [(''name'', JStr ''Alice Store''),
          (''game'', JObj [(''miniDapp'', JStr ''game.mds.zip'')]), (''broken'', JNull)])
        ''http://host/store/dapps.json''
        \<lparr>store_url = Some ''http://host/store/dapps.json'', username = JStr ''alice'',
         address = JStr ''b'', maxima_address = JUndefined, verified = JUndefined,
         featured_dapp_uid = JUndefined\<rparr> (fixed_clock 0) = Inr [d] \<and>
      name d = JStr ''game'' \<and> version d = JStr ''1.0.0'' \<and> category d = JStr ''Utility'')"
proof -
  have h1: "object_entries (JObj [(''name'', JStr ''Alice Store''),
       (''game'', JObj [(''miniDapp'', JStr ''game.mds.zip'')]), (''broken'', JNull)])
     = Inr [(''name'', JStr ''Alice Store''),
       (''game'', JObj [(''miniDapp'', JStr ''game.mds.zip'')]), (''broken'', JNull)]"
    by simp
  from parseStoreData_defaults [OF h1, where storeUrl = "''http://host/store/dapps.json''"
      and clock = "fixed_clock 0"
      and prof = "\<lparr>store_url = Some ''http://host/store/dapps.json'', username = JStr ''alice'',
         address = JStr ''b'', maxima_address = JUndefined, verified = JUndefined,
         featured_dapp_uid = JUndefined\<rparr>"] h1
  show ?thesis
    by (auto simp add: kept_def reserved_key_def list_all2_Cons1 defaults_substituted_def)
qed

section \<open>Properties of the aggregator\<close>


lemma settle_fst_Inl:
  "fst (settle c t u (Inl e)) = (case cachedStores c u of Some x \<Rightarrow> Inr x | None \<Rightarrow> Inl e)"
  by (simp add: settle_def split: option.splits)

lemma settle_snd_Inl: "snd (settle c t u (Inl e)) = c"
  by (simp add: settle_def split: option.splits)

lemma settle_snd_Inr:
  "snd (settle c t u (Inr ds)) =
     c\<lparr>cachedStores := (cachedStores c)(u \<mapsto> ds), lastFetchTime := (lastFetchTime c)(u \<mapsto> t)\<rparr>"
  by (simp add: settle_def)

lemma settle_other:
  "u' \<noteq> u \<Longrightarrow> cachedStores (snd (settle c t u a)) u' = cachedStores c u' \<and>
               lastFetchTime (snd (settle c t u a)) u' = lastFetchTime c u'"
  by (cases a) (simp_all add: settle_snd_Inl settle_snd_Inr)

lemma settle_mono:
  "cachedStores c u' \<noteq> None \<Longrightarrow> cachedStores (snd (settle c t u a)) u' \<noteq> None"
  by (cases a) (simp_all add: settle_snd_Inl settle_snd_Inr)





lemma fresh_cached_Some:
  "fresh_cached c t u = Some x \<Longrightarrow> cachedStores c u = Some x"
  by (simp add: fresh_cached_def split: option.splits if_splits)

lemma completions_invariant:
  assumes "P s" and "\<And>i s. P s \<Longrightarrow> P (complete srcs i s)"
  shows "P (completions srcs sched s)"
  using assms(1)
proof (induction sched arbitrary: s)
  case Nil
  then show ?case by simp
next
  case (Cons i sched)
  then show ?case using assms(2) by simp
qed

lemma complete_length: "length (snd (complete srcs i s)) = length (snd s)"
  by (simp add: complete_def)

lemma complete_keeps:
  "snd s ! j = Some r \<Longrightarrow> snd (complete srcs i s) ! j = Some r"
  by (cases "i = j") (auto simp: complete_def)

lemma complete_settles:
  "i < length srcs \<Longrightarrow> length (snd s) = length srcs \<Longrightarrow> snd (complete srcs i s) ! i \<noteq> None"
  by (auto simp: complete_def)

lemma completions_length: "length (snd (completions srcs sched s)) = length (snd s)"
  by (rule completions_invariant [where P = "\<lambda>s'. length (snd s') = length (snd s)"])
     (simp_all add: complete_length)

lemma completions_keeps:
  "snd s ! j = Some r \<Longrightarrow> snd (completions srcs sched s) ! j = Some r"
  by (rule completions_invariant [where P = "\<lambda>s'. snd s' ! j = Some r"])
     (simp_all add: complete_keeps)

lemma completions_settles:
  "i \<in> set sched \<Longrightarrow> i < length srcs \<Longrightarrow> length (snd s) = length srcs \<Longrightarrow>
   snd (completions srcs sched s) ! i \<noteq> None"
proof (induction sched arbitrary: s)
  case Nil
  then show ?case by simp
next
  case (Cons j sched)
  show ?case
  proof (cases "j = i")
    case True
    from complete_settles [OF Cons.prems(2,3)]
    obtain r where "snd (complete srcs i s) ! i = Some r" by blast
    from completions_keeps [OF this] show ?thesis by (simp add: True)
  next
    case False
    then have "i \<in> set sched" using Cons.prems(1) by simp
    from Cons.IH [OF this Cons.prems(2)] Cons.prems(3)
    show ?thesis by (simp add: complete_length)
  qed
qed

lemma those_all_Some:
  "(\<And>i. i < length xs \<Longrightarrow> xs ! i \<noteq> None) \<Longrightarrow> those xs = Some (map the xs)"
proof (induction xs)
  case Nil
  show ?case by simp
next
  case (Cons x xs)
  have "x \<noteq> None" using Cons.prems [of 0] by simp
  moreover have "those xs = Some (map the xs)"
  proof (rule Cons.IH)
    fix i assume "i < length xs"
    then show "xs ! i \<noteq> None" using Cons.prems [of "Suc i"] by simp
  qed
  ultimately show ?case by auto
qed

lemma process_results_allDapps:
  "allDapps (process_results rs s) = allDapps s @ concat (map entries_of rs)"
proof (induction rs arbitrary: s)
  case Nil
  show ?case by simp
next
  case (Cons r rs)
  show ?case by (cases r) (simp_all add: Cons.IH entries_of_def)
qed


lemma process_results_successCount:
  "successCount (process_results rs s) = successCount s + length (filter (\<lambda>r. \<not> isl r) rs)"
proof (induction rs arbitrary: s)
  case Nil
  show ?case by simp
next
  case (Cons r rs)
  show ?case by (cases r) (simp_all add: Cons.IH)
qed


lemma started_length: "length (started c srcs) = length srcs"
  by (simp add: started_def)

lemma started_None:
  "i < length srcs \<Longrightarrow> started c srcs ! i = None \<longleftrightarrow> pending c (srcs ! i)"
  by (simp add: started_def pending_def)

lemma started_Some:
  "i < length srcs \<Longrightarrow> started c srcs ! i = Some r \<Longrightarrow>
   \<exists>x. r = Inr x \<and> fresh_cached c (env_now (snd (srcs ! i))) (the_url (fst (srcs ! i))) = Some x"
  by (auto simp: started_def)


lemma complete_cache_grows:
  "cachedStores (fst s) u \<noteq> None \<Longrightarrow> cachedStores (fst (complete srcs i s)) u \<noteq> None"
  using settle_mono [of "fst s" u] by (auto simp: complete_def)

lemma cache_grows:
  "cachedStores (fst s) u \<noteq> None \<Longrightarrow> cachedStores (fst (completions srcs sched s)) u \<noteq> None"
proof (induction sched arbitrary: s)
  case Nil
  then show ?case by simp
next
  case (Cons i sched)
  from Cons.IH [OF complete_cache_grows [OF Cons.prems]] show ?case by simp
qed







lemma inv_stale_start:
  assumes "cachedStores c0 u = Some old"
  shows "inv_stale c0 srcs u old (c0, started c0 srcs)"
  unfolding inv_stale_def
proof (intro conjI allI impI)
  show "length (snd (c0, started c0 srcs)) = length srcs" by (simp add: started_length)
  show "cachedStores (fst (c0, started c0 srcs)) u = Some old" using assms by simp
  show "lastFetchTime (fst (c0, started c0 srcs)) u = lastFetchTime c0 u" by simp
next
  fix i r assume i: "i < length srcs" and u: "the_url (fst (srcs ! i)) = u"
    and r: "snd (c0, started c0 srcs) ! i = Some r"
  then obtain x where x: "r = Inr x"
    and f: "fresh_cached c0 (env_now (snd (srcs ! i))) (the_url (fst (srcs ! i))) = Some x"
    using started_Some [OF i, of c0 r] by auto
  from fresh_cached_Some [OF f] assms u have "x = old" by simp
  then show "r = Inr old" using x by simp
qed

lemma inv_stale_step:
  assumes inv: "inv_stale c0 srcs u old s"
    and fail: "\<And>j. j < length srcs \<Longrightarrow> the_url (fst (srcs ! j)) = u \<Longrightarrow> isl (source_attempt (srcs ! j))"
  shows "inv_stale c0 srcs u old (complete srcs j s)"
proof (cases "j < length srcs \<and> j < length (snd s) \<and> snd s ! j = None")
  case False
  then have "complete srcs j s = s" by (auto simp: complete_def)
  then show ?thesis using inv by simp
next
  case True
  define r where "r = fst (settle (fst s) (env_now (snd (srcs ! j))) (the_url (fst (srcs ! j)))
                            (source_attempt (srcs ! j)))"
  define c' where "c' = snd (settle (fst s) (env_now (snd (srcs ! j))) (the_url (fst (srcs ! j)))
                            (source_attempt (srcs ! j)))"
  have eq: "complete srcs j s = (c', (snd s)[j := Some r])"
    using True by (simp add: complete_def r_def c'_def)
  from inv have len: "length (snd s) = length srcs"
    and rec: "cachedStores (fst s) u = Some old"
    and tm: "lastFetchTime (fst s) u = lastFetchTime c0 u"
    and fin: "\<And>i r. i < length srcs \<Longrightarrow> the_url (fst (srcs ! i)) = u \<Longrightarrow>
                 snd s ! i = Some r \<Longrightarrow> r = Inr old"
    unfolding inv_stale_def by blast+
  have cache: "cachedStores c' u = Some old \<and> lastFetchTime c' u = lastFetchTime c0 u"
   and res: "the_url (fst (srcs ! j)) = u \<Longrightarrow> r = Inr old"
  proof -
    show "cachedStores c' u = Some old \<and> lastFetchTime c' u = lastFetchTime c0 u"
    proof (cases "the_url (fst (srcs ! j)) = u")
      case uj: True
      then obtain e where e: "source_attempt (srcs ! j) = Inl e"
        using fail [of j] True by (cases "source_attempt (srcs ! j)") auto
      show ?thesis unfolding c'_def e by (simp add: settle_snd_Inl rec tm)
    next
      case uj: False
      then have "u \<noteq> the_url (fst (srcs ! j))" by blast
      from settle_other [OF this] show ?thesis unfolding c'_def by (simp add: rec tm)
    qed
  next
    assume uj: "the_url (fst (srcs ! j)) = u"
    then obtain e where e: "source_attempt (srcs ! j) = Inl e"
      using fail [of j] True by (cases "source_attempt (srcs ! j)") auto
    show "r = Inr old" unfolding r_def e by (simp add: settle_fst_Inl uj rec)
  qed
  show ?thesis
    unfolding inv_stale_def eq
  proof (intro conjI allI impI)
    show "length (snd (c', (snd s)[j := Some r])) = length srcs" using len by simp
    show "cachedStores (fst (c', (snd s)[j := Some r])) u = Some old" using cache by simp
    show "lastFetchTime (fst (c', (snd s)[j := Some r])) u = lastFetchTime c0 u" using cache by simp
  next
    fix i r' assume i: "i < length srcs" and u: "the_url (fst (srcs ! i)) = u"
      and r': "snd (c', (snd s)[j := Some r]) ! i = Some r'"
    show "r' = Inr old"
    proof (cases "i = j")
      case True
      then have "r' = r" using r' i len by simp
      then show ?thesis using res u True by simp
    next
      case False
      then have "snd s ! i = Some r'" using r' by simp
      then show ?thesis using fin i u by blast
    qed
  qed
qed

lemma inv_stale_completions:
  assumes fail: "\<And>j. j < length srcs \<Longrightarrow> the_url (fst (srcs ! j)) = u \<Longrightarrow> isl (source_attempt (srcs ! j))"
  shows "inv_stale c0 srcs u old s \<Longrightarrow> inv_stale c0 srcs u old (completions srcs sched s)"
proof (induction sched arbitrary: s)
  case Nil
  then show ?case by simp
next
  case (Cons j sched)
  from Cons.IH [OF inv_stale_step [OF Cons.prems fail]] show ?case by simp
qed

lemma run_pipelines_settles:
  assumes sched: "complete_schedule c srcs sched"
  shows "run_pipelines c srcs sched =
           Some (map the (snd (completions srcs sched (c, started c srcs))),
                 fst (completions srcs sched (c, started c srcs))) \<and>
         (\<forall>i<length srcs. snd (completions srcs sched (c, started c srcs)) ! i \<noteq> None)"
proof -
  define s' where "s' = completions srcs sched (c, started c srcs)"
  have len: "length (snd s') = length srcs"
    by (simp add: s'_def completions_length started_length)
  have all: "snd s' ! i \<noteq> None" if i: "i < length srcs" for i
  proof (cases "started c srcs ! i")
    case None
    then have "pending c (srcs ! i)" using i by (simp add: started_None)
    then have "i \<in> set sched" using sched i by (auto simp: complete_schedule_def list_all_iff)
    from completions_settles [OF this i, of "(c, started c srcs)"]
    show ?thesis by (simp add: s'_def started_length)
  next
    case (Some r)
    then have "snd (c, started c srcs) ! i = Some r" by simp
    from completions_keeps [OF this] show ?thesis by (simp add: s'_def)
  qed
  have "those (snd s') = Some (map the (snd s'))"
    by (rule those_all_Some) (use all len in auto)
  then show ?thesis using all by (simp add: run_pipelines_def s'_def)
qed


text \<open>
  Claim C4: if the cache holds the record \<open>old\<close> for the URL \<open>u\<close> of a declared source and
  every attempt to fetch \<open>u\<close> in this aggregation fails, then, whatever the age of the
  record and the order in which the calls finish, the call of that source is fulfilled
  with \<open>old\<close>, the aggregation includes the entries of \<open>old\<close>, and afterwards the cache
  still holds \<open>old\<close> for \<open>u\<close> with the fetch time it had.
\<close>
theorem fetchAllStores_stale_fallback:
  assumes srcs: "srcs = filter (\<lambda>src. has_store (fst src)) profiles"
      and i: "i < length srcs"
      and url: "the_url (fst (srcs ! i)) = u"
      and cached: "cachedStores c u = Some old"
      and fail: "\<forall>j<length srcs. the_url (fst (srcs ! j)) = u \<longrightarrow> isl (source_attempt (srcs ! j))"
      and sched: "complete_schedule c srcs sched"
  shows "\<exists>storeResults dapps c'.
      run_pipelines c srcs sched = Some (storeResults, c') \<and>
      storeResults ! i = Inr old \<and>
      fetchAllStores c profiles sched = Some (dapps, c') \<and>
      set old \<subseteq> set dapps \<and>
      cachedStores c' u = Some old \<and>
      lastFetchTime c' u = lastFetchTime c u"
proof -
  define s' where "s' = completions srcs sched (c, started c srcs)"
  define rs where "rs = map the (snd s')"
  have len: "length (snd s') = length srcs"
    by (simp add: s'_def completions_length started_length)
  from run_pipelines_settles [OF sched]
  have run: "run_pipelines c srcs sched = Some (rs, fst s')"
    and all: "\<And>i. i < length srcs \<Longrightarrow> snd s' ! i \<noteq> None"
    by (simp_all add: s'_def rs_def)
  have nth: "snd s' ! i = Some (rs ! i)"
    using all [OF i] i len by (auto simp: rs_def)
  have lrs: "length rs = length srcs" by (simp add: rs_def len)
  have ne: "srcs \<noteq> []" using i by auto
  have fa: "fetchAllStores c profiles sched = Some (concat (map entries_of rs), fst s')"
    using ne run
    by (simp add: fetchAllStores_def srcs [symmetric] Let_def process_results_allDapps summary0_def)
  have inv: "inv_stale c srcs u old s'" unfolding s'_def
    by (rule inv_stale_completions [OF _ inv_stale_start [OF cached]]) (use fail in blast)
  then have ri: "rs ! i = Inr old" and c1: "cachedStores (fst s') u = Some old"
    and c2: "lastFetchTime (fst s') u = lastFetchTime c u"
    using nth i url unfolding inv_stale_def by blast+
  have "rs ! i \<in> set rs" using i lrs by simp
  then have "Inr old \<in> set rs" using ri by simp
  then have sub: "set old \<subseteq> set (concat (map entries_of rs))"
    by (force simp: entries_of_def)
  from run ri fa sub c1 c2 show ?thesis by blast
qed



lemma example_bob_attempt:
  "source_attempt (example_bob, example_bob_env) = Inl (Error ''HTTP 500: Internal Server Error'')"
  by (simp add: source_attempt_def the_url_def store_request_def answering_def
      fetch_attempt_def response_ok_def dec_of_int_def)

lemma example_has_store: "has_store example_alice" "has_store example_bob"
  by (simp_all add: has_store_def js_trim_def js_whitespace_def)








text \<open>
  Witness for C4: Bob's stale record survives the failed refetch and its entry is part of
  the aggregation.
\<close>
theorem fetchAllStores_stale_fallback_witness:
  "\<exists>dapps c'.
      fetchAllStores example_bob_cache
        [(example_alice, example_alice_env), (example_bob, example_bob_env)] [0, 1]
        = Some (dapps, c') \<and>
      set [example_bob_dapp] \<subseteq> set dapps \<and>
      cachedStores c' ''http://bob/dapps.json'' = Some [example_bob_dapp] \<and>
      lastFetchTime c' ''http://bob/dapps.json'' = Some 1000"
proof -
  let ?srcs = "[(example_alice, example_alice_env), (example_bob, example_bob_env)]"
  have h1: "?srcs = filter (\<lambda>src. has_store (fst src)) ?srcs"
    by (simp add: example_has_store)
  have h2: "(1::nat) < length ?srcs" by simp
  have h3: "the_url (fst (?srcs ! 1)) = ''http://bob/dapps.json''" by (simp add: the_url_def)
  have h4: "cachedStores example_bob_cache ''http://bob/dapps.json'' = Some [example_bob_dapp]"
    by simp
  have h5: "\<forall>j<length ?srcs. the_url (fst (?srcs ! j)) = ''http://bob/dapps.json'' \<longrightarrow>
              isl (source_attempt (?srcs ! j))"
    by (simp add: less_Suc_eq the_url_def example_bob_attempt)
  have h6: "complete_schedule example_bob_cache ?srcs [0, 1]"
    by (simp add: complete_schedule_def)
  from fetchAllStores_stale_fallback [OF h1 h2 h3 h4 h5 h6]
  show ?thesis by auto
qed

section \<open>Properties of dapp registration\<close>

















section \<open>Properties of a single fetch\<close>

lemma fetchStore_fresh:
  "fresh_cached c (env_now env) storeUrl = Some cached \<Longrightarrow>
   fetchStore c env storeUrl prof = (Inr cached, c, [])"
  by (simp add: fetchStore_def)

lemma fetchStore_pending:
  "fresh_cached c (env_now env) storeUrl = None \<Longrightarrow>
   fetchStore c env storeUrl prof =
     (fst (settle c (env_now env) storeUrl (store_attempt env storeUrl prof)),
      snd (settle c (env_now env) storeUrl (store_attempt env storeUrl prof)),
      [store_request storeUrl])"
  by (simp add: fetchStore_def store_attempt_def Let_def split: prod.splits)

lemma fetchStore_requests:
  "snd (snd (fetchStore c env storeUrl prof)) =
     (if fresh_cached c (env_now env) storeUrl = None then [store_request storeUrl] else [])"
  by (cases "fresh_cached c (env_now env) storeUrl")
     (simp_all add: fetchStore_fresh fetchStore_pending)

lemma store_attempt_NoAnswer:
  "env_net env storeUrl = NoAnswer \<Longrightarrow> store_attempt env storeUrl prof = Inl timeout_error"
  by (simp add: store_attempt_def store_request_def fetch_attempt_def)

lemma store_attempt_NetworkError:
  "env_net env storeUrl = NetworkError ms e \<Longrightarrow>
   store_attempt env storeUrl prof = Inl (if 10000 < ms then timeout_error else e)"
  by (simp add: store_attempt_def store_request_def fetch_attempt_def)

lemma store_attempt_late_headers:
  "env_net env storeUrl = Reply r \<Longrightarrow> 10000 < headers_after r \<Longrightarrow>
   store_attempt env storeUrl prof = Inl timeout_error"
  by (simp add: store_attempt_def store_request_def fetch_attempt_def)

lemma store_attempt_status:
  "env_net env storeUrl = Reply r \<Longrightarrow> headers_after r \<le> 10000 \<Longrightarrow> \<not> response_ok (status r) \<Longrightarrow>
   store_attempt env storeUrl prof =
     Inl (Error (''HTTP '' @ dec_of_int (status r) @ '': '' @ statusText r))"
  by (simp add: store_attempt_def store_request_def fetch_attempt_def)

lemma store_attempt_late_body:
  "env_net env storeUrl = Reply r \<Longrightarrow> headers_after r \<le> 10000 \<Longrightarrow> response_ok (status r) \<Longrightarrow>
   10000 < body_after r \<Longrightarrow> store_attempt env storeUrl prof = Inl timeout_error"
  by (simp add: store_attempt_def store_request_def fetch_attempt_def)

lemma store_attempt_malformed:
  "env_net env storeUrl = Reply r \<Longrightarrow> headers_after r \<le> 10000 \<Longrightarrow> response_ok (status r) \<Longrightarrow>
   body_after r \<le> 10000 \<Longrightarrow> body r = Inl e \<Longrightarrow> store_attempt env storeUrl prof = Inl e"
  by (simp add: store_attempt_def store_request_def fetch_attempt_def)

lemma fetchStore_failed:
  "fresh_cached c (env_now env) storeUrl = None \<Longrightarrow> store_attempt env storeUrl prof = Inl e \<Longrightarrow>
   fetchStore c env storeUrl prof =
     ((case cachedStores c storeUrl of Some cached \<Rightarrow> Inr cached | None \<Rightarrow> Inl e), c,
      [store_request storeUrl])"
  by (simp add: fetchStore_pending settle_fst_Inl settle_snd_Inl)

text \<open>
  Claim C7: a call of \<^verbatim>\<open>fetchStore\<close> sends at most one request, a GET with a timeout of
  10000 milliseconds, and none when the cache record is fresh: there is no retry. The
  attempt fails when the server does not answer, or answers or delivers the body after
  more than 10000 milliseconds (TimeoutError), when the status is outside 200 to 299
  (\<^verbatim>\<open>HTTP status: text\<close>), and when the body does not parse as JSON. A failed attempt ends the
  call: it returns the cached record of the URL if there is one and is rejected with
  the error otherwise, leaving the cache as it was.
\<close>
theorem fetchStore_single_attempt:
  "store_request storeUrl =
     \<lparr>req_url = storeUrl, req_method = ''GET'', req_accept = ''application/json'',
      req_timeout = 10000\<rparr> \<and>
   snd (snd (fetchStore c env storeUrl prof)) =
     (if fresh_cached c (env_now env) storeUrl = None then [store_request storeUrl] else []) \<and>
   (env_net env storeUrl = NoAnswer \<longrightarrow> store_attempt env storeUrl prof = Inl timeout_error) \<and>
   (\<forall>ms e. env_net env storeUrl = NetworkError ms e \<longrightarrow>
      store_attempt env storeUrl prof = Inl (if 10000 < ms then timeout_error else e)) \<and>
   (\<forall>r. env_net env storeUrl = Reply r \<and> 10000 < headers_after r \<longrightarrow>
      store_attempt env storeUrl prof = Inl timeout_error) \<and>
   (\<forall>r. env_net env storeUrl = Reply r \<and> headers_after r \<le> 10000 \<and> \<not> response_ok (status r) \<longrightarrow>
      store_attempt env storeUrl prof =
        Inl (Error (''HTTP '' @ dec_of_int (status r) @ '': '' @ statusText r))) \<and>
   (\<forall>r. env_net env storeUrl = Reply r \<and> headers_after r \<le> 10000 \<and> response_ok (status r) \<and>
        10000 < body_after r \<longrightarrow>
      store_attempt env storeUrl prof = Inl timeout_error) \<and>
   (\<forall>r e. env_net env storeUrl = Reply r \<and> headers_after r \<le> 10000 \<and> response_ok (status r) \<and>
        body_after r \<le> 10000 \<and> body r = Inl e \<longrightarrow>
      store_attempt env storeUrl prof = Inl e) \<and>
   (\<forall>e. fresh_cached c (env_now env) storeUrl = None \<and> store_attempt env storeUrl prof = Inl e \<longrightarrow>
      fetchStore c env storeUrl prof =
        ((case cachedStores c storeUrl of Some cached \<Rightarrow> Inr cached | None \<Rightarrow> Inl e), c,
         [store_request storeUrl]))"
  using fetchStore_requests [of c env storeUrl prof]
    store_attempt_NoAnswer [of env storeUrl prof]
    store_attempt_NetworkError [of env storeUrl _ _ prof]
    store_attempt_late_headers [of env storeUrl _ prof]
    store_attempt_status [of env storeUrl _ prof]
    store_attempt_late_body [of env storeUrl _ prof]
    store_attempt_malformed [of env storeUrl _ _ prof]
    fetchStore_failed [of c env storeUrl prof]
  by (intro conjI allI impI) (simp_all add: store_request_def)

text \<open>
  Witness for C7: with an empty cache, a store that answers with status 500 and a store
  that answers after 10001 milliseconds.
\<close>
theorem fetchStore_single_attempt_witness:
  "fetchStore example_empty_cache example_bob_env ''http://bob/dapps.json'' example_bob
     = (Inl (Error ''HTTP 500: Internal Server Error''), example_empty_cache,
        [store_request ''http://bob/dapps.json'']) \<and>
   fetchStore example_empty_cache example_slow_env ''http://bob/dapps.json'' example_bob
     = (Inl timeout_error, example_empty_cache, [store_request ''http://bob/dapps.json''])"
proof -
  have f: "fresh_cached example_empty_cache 400000 ''http://bob/dapps.json'' = None"
    by (simp add: fresh_cached_def)
  note bob = fetchStore_single_attempt [of "''http://bob/dapps.json''" example_empty_cache
      example_bob_env example_bob]
  note slow = fetchStore_single_attempt [of "''http://bob/dapps.json''" example_empty_cache
      example_slow_env example_bob]
  have a: "store_attempt example_bob_env ''http://bob/dapps.json'' example_bob
      = Inl (Error ''HTTP 500: Internal Server Error'')"
    using bob by (simp add: answering_def response_ok_def dec_of_int_def)
  have b: "store_attempt example_slow_env ''http://bob/dapps.json'' example_bob = Inl timeout_error"
    using slow by (simp add: answering_def)
  from bob a f have "fetchStore example_empty_cache example_bob_env ''http://bob/dapps.json'' example_bob
     = (Inl (Error ''HTTP 500: Internal Server Error''), example_empty_cache,
        [store_request ''http://bob/dapps.json''])"
    by simp
  moreover from slow b f
  have "fetchStore example_empty_cache example_slow_env ''http://bob/dapps.json'' example_bob
     = (Inl timeout_error, example_empty_cache, [store_request ''http://bob/dapps.json''])"
    by simp
  ultimately show ?thesis by simp
qed

section \<open>Properties of the registry scan\<close>

lemma getf_string_truthy: "getf s k = JStr x \<Longrightarrow> truthy s \<and> \<not> nullish s"
  by (cases s) auto

lemma find_port0_well_formed:
  "list_all (\<lambda>s. \<not> nullish s) st \<Longrightarrow>
   find_port0 st = Inr (case find (\<lambda>s. getf s ''port'' = JStr ''0'') st of
                          None \<Rightarrow> JUndefined | Some s \<Rightarrow> s)"
  by (induction st) auto

lemma find_port0_truthy:
  "find (\<lambda>s. getf s ''port'' = JStr ''0'') st = Some s \<Longrightarrow> truthy s"
proof -
  assume "find (\<lambda>s. getf s ''port'' = JStr ''0'') st = Some s"
  then have "getf s ''port'' = JStr ''0''" by (auto simp: find_Some_iff)
  then show "truthy s" using getf_string_truthy by blast
qed

lemma decode_registration_tagged:
  "decode_registration json_parse coin slot =
     (case json_parse (toStr (getf slot ''data'')) of
        None \<Rightarrow> None
      | Some dappData \<Rightarrow>
          (if getf dappData ''type'' = JStr ''minidev_dapp_registration''
           then Some (registry_entry dappData coin) else None))"
proof (cases "json_parse (toStr (getf slot ''data''))")
  case None
  then show ?thesis by (simp add: decode_registration_def)
next
  case (Some d)
  show ?thesis
  proof (cases "nullish d")
    case True
    then have "getf d ''type'' = JUndefined" by (cases d) auto
    then show ?thesis using Some True by (simp add: decode_registration_def)
  next
    case False
    then show ?thesis using Some by (simp add: decode_registration_def)
  qed
qed

lemma scan_coin_well_formed:
  assumes "well_formed_coin coin"
  shows "scan_coin json_parse coin = Inr (tagged_registration json_parse coin)"
proof (cases "getf coin ''state''")
  case (JArr st)
  with assms have nn: "\<not> nullish coin" and all: "list_all (\<lambda>s. \<not> nullish s) st"
    by (simp_all add: well_formed_coin_def)
  show ?thesis
  proof (cases "find (\<lambda>s. getf s ''port'' = JStr ''0'') st")
    case None
    then show ?thesis using nn JArr find_port0_well_formed [OF all]
      by (simp add: scan_coin_def tagged_registration_def)
  next
    case (Some slot)
    then show ?thesis using nn JArr find_port0_well_formed [OF all] find_port0_truthy [OF Some]
      by (simp add: scan_coin_def tagged_registration_def decode_registration_tagged)
  qed
qed (use assms in \<open>simp_all add: well_formed_coin_def scan_coin_def tagged_registration_def\<close>)

lemma scan_coins_well_formed:
  assumes "list_all well_formed_coin coins" and "int (length dapps) < limit"
  shows "scan_coins json_parse limit coins dapps =
           Inr (take (nat limit) (dapps @ List.map_filter (tagged_registration json_parse) coins))"
  using assms
proof (induction coins arbitrary: dapps)
  case Nil
  then show ?case by (simp add: map_filter_simps)
next
  case (Cons coin coins)
  from Cons.prems(1) have wf: "well_formed_coin coin" and rest: "list_all well_formed_coin coins"
    by simp_all
  note sc = scan_coin_well_formed [OF wf, of json_parse]
  show ?case
  proof (cases "tagged_registration json_parse coin")
    case None
    from Cons.IH [OF rest Cons.prems(2)] Cons.prems(2)
    show ?thesis by (simp add: sc None map_filter_simps)
  next
    case (Some d)
    show ?thesis
    proof (cases "limit \<le> int (length dapps) + 1")
      case True
      with Cons.prems(2) have "nat limit = length dapps + 1" by simp
      then show ?thesis using True by (simp add: sc Some map_filter_simps)
    next
      case False
      then have "int (length (dapps @ [d])) < limit" by simp
      from Cons.IH [OF rest this] False
      show ?thesis by (simp add: sc Some map_filter_simps)
    qed
  qed
qed

lemma scan_coins_length:
  "scan_coins json_parse limit coins dapps = Inr out \<Longrightarrow> int (length dapps) < limit \<Longrightarrow>
   int (length out) \<le> limit"
proof (induction coins arbitrary: dapps)
  case Nil
  then show ?case by simp
next
  case (Cons coin coins)
  show ?case
  proof (cases "scan_coin json_parse coin")
    case (Inl e)
    with Cons.prems show ?thesis by simp
  next
    case (Inr found)
    define dapps' where "dapps' = dapps @ (case found of None \<Rightarrow> [] | Some d \<Rightarrow> [d])"
    have len: "int (length dapps') \<le> int (length dapps) + 1"
      by (cases found) (simp_all add: dapps'_def)
    show ?thesis
    proof (cases "limit \<le> int (length dapps')")
      case True
      then have "out = dapps'" using Cons.prems(1) Inr by (simp add: dapps'_def)
      then show ?thesis using len Cons.prems(2) by simp
    next
      case False
      then have "scan_coins json_parse limit coins dapps' = Inr out"
        using Cons.prems(1) Inr by (simp add: dapps'_def)
      from Cons.IH [OF this] False show ?thesis by simp
    qed
  qed
qed

lemma scan_result_well_formed:
  assumes "getf (getf result ''response'') ''coins'' = JArr coins"
      and "list_all well_formed_coin coins" and "1 \<le> limit"
  shows "scan_result json_parse limit result =
           Inr (take (nat limit) (List.map_filter (tagged_registration json_parse) coins))"
proof -
  have r: "truthy (getf result ''response'')"
    using assms(1) by (cases "getf result ''response''") auto
  then have nn: "\<not> nullish result" by (cases result) auto
  have "int (length ([] :: jsval list)) < limit" using assms(3) by simp
  from scan_coins_well_formed [OF assms(2) this, of json_parse]
  show ?thesis using r nn assms(1) by (simp add: scan_result_def)
qed

text \<open>
  Claim C6, amended: when the node answers the scan with well-formed records, and the
  limit (100 when the argument is omitted) is at least 1, \<^verbatim>\<open>queryRegisteredDapps\<close> returns,
  in ledger order, the entries of the first \<open>limit\<close> records whose metadata slot parses
  and is tagged as a dapp registration: all of them when there are no more than
  \<open>limit\<close>. Records with absent or invalid metadata are skipped and do not end the scan.
\<close>
theorem queryRegisteredDapps_tagged_records:
  assumes "ready"
      and "mdsCommand m node l ''coins relevant:false'' = (Some (Inr result), l')"
      and "getf (getf result ''response'') ''coins'' = JArr coins"
      and "list_all well_formed_coin coins"
      and "limit = (case limit_arg of None \<Rightarrow> 100 | Some n \<Rightarrow> n)"
      and "1 \<le> limit"
  shows "queryRegisteredDapps json_parse ready (Some m) node l limit_arg =
           (Some (Inr (take (nat limit) (List.map_filter (tagged_registration json_parse) coins))),
            l')"
  using assms(1,2) scan_result_well_formed [OF assms(3,4,6), of json_parse]
  by (simp add: queryRegisteredDapps_def assms(5) [symmetric] catch_empty_def)

lemma example_ledger_command:
  "mdsCommand example_minima example_ledger () ''coins relevant:false''
     = (Some (Inr (JObj [(''status'', JBool True),
                   (''response'', JObj [(''coins'',
                      JArr [example_coin_one, example_coin_bad, example_coin_two])])])), ())"
  by (simp add: mdsCommand_def run_command_def example_ledger_def command_callback_def)

lemma example_coins_well_formed:
  "list_all well_formed_coin [example_coin_one, example_coin_bad, example_coin_two]"
  by (simp add: well_formed_coin_def)

lemma example_tagged:
  "tagged_registration example_json_parse example_coin_one
     = Some (registry_entry example_registration_one example_coin_one)"
  "tagged_registration example_json_parse example_coin_bad = None"
  "tagged_registration example_json_parse example_coin_two
     = Some (registry_entry example_registration_two example_coin_two)"
  by (simp_all add: tagged_registration_def example_json_parse_def)

lemma example_ledger_coins:
  "getf (getf (JObj [(''status'', JBool True),
                   (''response'', JObj [(''coins'',
                      JArr [example_coin_one, example_coin_bad, example_coin_two])])]) ''response'')
      ''coins'' = JArr [example_coin_one, example_coin_bad, example_coin_two]"
  by simp

text \<open>
  Witness for C6 (amended): the example ledger, scanned with the default limit, gives the
  two registrations and skips the record whose metadata is not JSON.
\<close>
theorem queryRegisteredDapps_tagged_records_witness:
  "queryRegisteredDapps example_json_parse True (Some example_minima) example_ledger () None
     = (Some (Inr [registry_entry example_registration_one example_coin_one,
                   registry_entry example_registration_two example_coin_two]), ())"
proof -
  have lim: "(100::int) = (case None :: int option of None \<Rightarrow> 100 | Some n \<Rightarrow> n)" by simp
  have one: "(1::int) \<le> 100" by simp
  from queryRegisteredDapps_tagged_records [OF TrueI example_ledger_command example_ledger_coins
      example_coins_well_formed lim one, of example_json_parse]
  show ?thesis by (simp add: map_filter_simps example_tagged)
qed

lemma example_scan:
  "scan_result example_json_parse limit
     (JObj [(''status'', JBool True),
            (''response'', JObj [(''coins'',
               JArr [example_coin_one, example_coin_bad, example_coin_two])])])
   = (if limit \<le> 1 then Inr [registry_entry example_registration_one example_coin_one]
      else scan_coins example_json_parse limit [example_coin_bad, example_coin_two]
             [registry_entry example_registration_one example_coin_one])"
  using scan_coin_well_formed [of example_coin_one example_json_parse]
  by (simp add: scan_result_def well_formed_coin_def example_tagged)

text \<open>
  Claim C6, as stated, fails: with limit 1 the scan of the example ledger returns the
  first registration only, although the third record is a valid tagged registration too.
\<close>
theorem queryRegisteredDapps_limit_counterexample:
  "fst (queryRegisteredDapps example_json_parse True (Some example_minima) example_ledger ()
          (Some 1))
     = Some (Inr [registry_entry example_registration_one example_coin_one]) \<and>
   tagged_registration example_json_parse example_coin_two
     = Some (registry_entry example_registration_two example_coin_two)"
  by (simp add: queryRegisteredDapps_def example_ledger_command example_scan catch_empty_def
      example_tagged)

text \<open>
  Claim C10 at its failing input: with limit 0 the scan of the example ledger returns one
  entry, because the limit is checked only after a record has been pushed.
\<close>
theorem queryRegisteredDapps_limit_zero:
  "fst (queryRegisteredDapps example_json_parse True (Some example_minima) example_ledger ()
          (Some 0))
     = Some (Inr [registry_entry example_registration_one example_coin_one])"
  by (simp add: queryRegisteredDapps_def example_ledger_command example_scan catch_empty_def)

lemma catch_empty_never_throws: "catch_empty r \<noteq> Inl e"
  by (cases r) (simp_all add: catch_empty_def)

lemma queryRegisteredDapps_never_throws:
  "fst (queryRegisteredDapps json_parse ready mapi node l limit_arg) \<noteq> Some (Inl e)"
  by (auto simp: queryRegisteredDapps_def Let_def catch_empty_never_throws
      split: option.splits prod.splits sum.splits)

lemma scan_result_length:
  assumes "scan_result json_parse limit result = Inr out" and "1 \<le> limit"
  shows "int (length out) \<le> limit"
proof (cases "\<not> nullish result \<and> truthy (getf result ''response'') \<and>
              truthy (getf (getf result ''response'') ''coins'')")
  case True
  then obtain coins where "js_iterate (getf (getf result ''response'') ''coins'') = Inr coins"
    and "scan_coins json_parse limit coins [] = Inr out"
    using assms(1) by (auto simp: scan_result_def split: sum.splits)
  from scan_coins_length [OF this(2)] assms(2) show ?thesis by simp
next
  case False
  then have "out = []" using assms(1) by (auto simp: scan_result_def split: if_splits)
  then show ?thesis using assms(2) by simp
qed

lemma queryRegisteredDapps_at_most_limit:
  assumes "fst (queryRegisteredDapps json_parse ready mapi node l limit_arg) = Some (Inr out)"
      and "limit = (case limit_arg of None \<Rightarrow> 100 | Some n \<Rightarrow> n)" and "1 \<le> limit"
  shows "int (length out) \<le> limit"
proof -
  have e: "int (length out) \<le> limit" if "catch_empty r = Inr out"
    and "\<And>x. r = Inr x \<Longrightarrow> int (length x) \<le> limit" for r
    using that assms(3) by (cases r) (auto simp: catch_empty_def)
  from assms(1) show ?thesis
    unfolding queryRegisteredDapps_def Let_def assms(2) [symmetric]
    by (auto split: if_splits option.splits prod.splits sum.splits
        intro: e scan_result_length [OF _ assms(3), of json_parse] simp: assms(3))
qed

section \<open>Properties of the view model\<close>

lemma find_by_uid_found:
  "find_by_uid ds dappUid i = Inr (Some j) \<Longrightarrow>
   i \<le> j \<and> j - i < length ds \<and> strict_eq (getf (ds ! (j - i)) ''uid'') dappUid"
proof (induction ds arbitrary: i)
  case Nil
  then show ?case by simp
next
  case (Cons d ds)
  show ?case
  proof (cases "\<not> nullish d \<and> \<not> strict_eq (getf d ''uid'') dappUid")
    case True
    then have "find_by_uid ds dappUid (Suc i) = Inr (Some j)" using Cons.prems by simp
    from Cons.IH [OF this] have "Suc i \<le> j" "j - Suc i < length ds"
      "strict_eq (getf (ds ! (j - Suc i)) ''uid'') dappUid" by simp_all
    moreover from this have "j - i = Suc (j - Suc i)" by simp
    ultimately show ?thesis by simp
  next
    case False
    then have "j = i" using Cons.prems by (auto split: if_splits)
    then show ?thesis using False Cons.prems by (auto split: if_splits)
  qed
qed










end
